theory Spec2Isabelle
  imports Main "HOL-Library.Char_ord" "HOL-Library.List_Lexorder" "HOL-Library.Sublist"
begin

section \<open>The host environment of the configuration service\<close>

text \<open>
  The service in \<^verbatim>\<open>src/services/roo-config/index.ts\<close> talks to Node through
  \<^verbatim>\<open>os.homedir\<close>, \<^verbatim>\<open>path.join\<close>, \<^verbatim>\<open>path.dirname\<close>,
  \<^verbatim>\<open>fs.readFile\<close> and to the search service through \<^verbatim>\<open>executeRipgrep\<close>.
  None of these is code of the repository, so they are parameters of the model, collected
  in one record. A rejected promise or a thrown exception is the left injection of a sum.
  JavaScript strings are modelled as \<open>string\<close>; the order on them is the lexicographic
  order on character codes, which is how \<^verbatim>\<open>Array.prototype.sort\<close> compares
  strings when it is given no comparator.
\<close>

record js_error =
  code :: "string option"
  message :: string

record file_result =
  path :: string
  ftype :: string

record node_env =
  homedir :: string
  join :: "string list \<Rightarrow> string"
  dirname :: "string \<Rightarrow> string"
  readFile :: "string \<Rightarrow> js_error + string"
  executeRipgrep :: "string list \<Rightarrow> string \<Rightarrow> js_error + file_result list"

section \<open>Path resolution\<close>

definition getGlobalRooDirectory :: "node_env \<Rightarrow> string" where
  "getGlobalRooDirectory env = (let homeDir = homedir env in join env [homeDir, ''.bitx''])"

definition getProjectRooDirectoryForCwd :: "node_env \<Rightarrow> string \<Rightarrow> string" where
  "getProjectRooDirectoryForCwd env cwd = join env [cwd, ''.bitx'']"

section \<open>Reading and merging configuration\<close>

text \<open>
  \<^verbatim>\<open>readFileIfExists\<close>: the three codes below give \<^verbatim>\<open>null\<close>, every other
  error is thrown again.
\<close>

definition readFileIfExists :: "node_env \<Rightarrow> string \<Rightarrow> js_error + string option" where
  "readFileIfExists env filePath =
     (case readFile env filePath of
        Inr content \<Rightarrow> Inr (Some content)
      | Inl error \<Rightarrow>
          if code error = Some ''ENOENT'' \<or> code error = Some ''ENOTDIR''
             \<or> code error = Some ''EISDIR''
          then Inr None
          else Inl error)"

text \<open>
  JavaScript's truthiness on \<^verbatim>\<open>string | null\<close>: \<^verbatim>\<open>null\<close> and the empty
  string are falsy. \<open>toText\<close> is what \<^verbatim>\<open>+=\<close> appends for such a value.
\<close>

fun truthy :: "string option \<Rightarrow> bool" where
  "truthy None = False"
| "truthy (Some s) = (s \<noteq> [])"

fun toText :: "string option \<Rightarrow> string" where
  "toText None = ''null''"
| "toText (Some s) = s"

definition overrideLabel :: string where
  "overrideLabel =
     [CHR 0x0A, CHR 0x0A] @ ''# Project-specific rules (override global):'' @ [CHR 0x0A, CHR 0x0A]"

record loaded_configuration =
  global :: "string option"
  project :: "string option"
  merged :: string

definition globalFilePath :: "node_env \<Rightarrow> string \<Rightarrow> string" where
  "globalFilePath env relativePath = join env [getGlobalRooDirectory env, relativePath]"

definition projectFilePath :: "node_env \<Rightarrow> string \<Rightarrow> string \<Rightarrow> string" where
  "projectFilePath env relativePath cwd =
     join env [getProjectRooDirectoryForCwd env cwd, relativePath]"

text \<open>
  \<open>globalFilePath\<close> and \<open>projectFilePath\<close> are the two local constants of
  \<^verbatim>\<open>loadConfiguration\<close>; \<open>mergeContents\<close> is its merge, from the empty
  \<^verbatim>\<open>merged\<close> it starts with to the value of the field \<^verbatim>\<open>merged\<close>, which
  is \<^verbatim>\<open>merged\<close> or else the empty string. The two reads are awaited one after
  the other, so a failure of the first one ends the call.
\<close>

definition mergeContents :: "string option \<Rightarrow> string option \<Rightarrow> string" where
  "mergeContents globalContent projectContent =
     (let m0 = [];
          m1 = (if truthy globalContent then m0 @ toText globalContent else m0);
          m2 = (if truthy projectContent
                then (let m = (if m1 \<noteq> [] then m1 @ overrideLabel else m1)
                      in m @ toText projectContent)
                else m1)
      in (if m2 \<noteq> [] then m2 else []))"

definition loadConfiguration ::
  "node_env \<Rightarrow> string \<Rightarrow> string \<Rightarrow> js_error + loaded_configuration" where
  "loadConfiguration env relativePath cwd =
     (case readFileIfExists env (globalFilePath env relativePath) of
        Inl error \<Rightarrow> Inl error
      | Inr globalContent \<Rightarrow>
          (case readFileIfExists env (projectFilePath env relativePath cwd) of
             Inl error \<Rightarrow> Inl error
           | Inr projectContent \<Rightarrow>
               Inr \<lparr> global = globalContent, project = projectContent,
                     merged = mergeContents globalContent projectContent \<rparr>))"

section \<open>Discovery of nested configuration directories\<close>

text \<open>
  The regular expression \<^verbatim>\<open>/^(.+?)[/\\]\.bitx[/\\]/\<close> of
  \<^verbatim>\<open>discoverSubfolderRooDirectories\<close>. \<open>isSeparator\<close> is the class
  \<^verbatim>\<open>[/\\]\<close>, \<open>rooMarkerAt\<close> says that a string starts with
  \<^verbatim>\<open>[/\\]\.bitx[/\\]\<close>, and \<open>lazyPrefix\<close> is the lazy group: it takes one more
  character at a time and stops at the first position, after at least one character,
  where the marker follows. The dot matches no line terminator; line feed and carriage
  return are the line terminators among the characters of \<open>string\<close>. \<open>rooMatch\<close>
  returns \<^verbatim>\<open>match[1]\<close>, or \<open>None\<close> when the expression does not match.
\<close>

definition isSeparator :: "char \<Rightarrow> bool" where
  "isSeparator c = (c = CHR ''/'' \<or> c = CHR 0x5C)"

definition isLineTerminator :: "char \<Rightarrow> bool" where
  "isLineTerminator c = (c = CHR 0x0A \<or> c = CHR 0x0D)"

fun rooMarkerAt :: "string \<Rightarrow> bool" where
  "rooMarkerAt (s1 # c1 # c2 # c3 # c4 # c5 # s2 # rest) =
     (isSeparator s1 \<and> [c1, c2, c3, c4, c5] = ''.bitx'' \<and> isSeparator s2)"
| "rooMarkerAt _ = False"

fun lazyPrefix :: "string \<Rightarrow> string \<Rightarrow> string option" where
  "lazyPrefix acc [] = None"
| "lazyPrefix acc (c # cs) =
     (if acc \<noteq> [] \<and> rooMarkerAt (c # cs) then Some acc
      else if isLineTerminator c then None
      else lazyPrefix (acc @ [c]) cs)"

definition rooMatch :: "string \<Rightarrow> string option" where
  "rooMatch s = lazyPrefix [] s"

text \<open>
  A \<^verbatim>\<open>Set<string>\<close> keeps its elements in insertion order and ignores the insertion
  of an element it has: a list without duplicates, new elements at the end.
\<close>

definition setAdd :: "string \<Rightarrow> string list \<Rightarrow> string list" where
  "setAdd x s = (if x \<in> set s then s else s @ [x])"

definition ripgrepArgs :: "string \<Rightarrow> string list" where
  "ripgrepArgs cwd =
     [''--files'', ''--hidden'', ''--follow'', ''-g'', ''**/.bitx/**'',
      ''-g'', ''!node_modules/**'', ''-g'', ''!.git/**'', cwd]"

text \<open>
  \<open>ripgrepArgs\<close> is the constant \<^verbatim>\<open>args\<close> of the function and \<open>collectRooDir\<close> is
  the body of its loop over the search results, with the set \<^verbatim>\<open>rooDirs\<close> as the
  state. Everything runs inside one \<^verbatim>\<open>try\<close>, whose handler returns the empty list.
\<close>

definition collectRooDir ::
  "node_env \<Rightarrow> string \<Rightarrow> file_result \<Rightarrow> string list \<Rightarrow> string list" where
  "collectRooDir env cwd result rooDirs =
     (let rootRooDir = join env [cwd, ''.bitx'']
      in case rooMatch (path result) of
           None \<Rightarrow> rooDirs
         | Some m \<Rightarrow>
             (let rooDir = join env [cwd, m, ''.bitx'']
              in if rooDir \<noteq> rootRooDir then setAdd rooDir rooDirs else rooDirs))"

definition discoverSubfolderRooDirectories :: "node_env \<Rightarrow> string \<Rightarrow> string list" where
  "discoverSubfolderRooDirectories env cwd =
     (case executeRipgrep env (ripgrepArgs cwd) cwd of
        Inl error \<Rightarrow> []
      | Inr results \<Rightarrow> sort (fold (collectRooDir env cwd) results []))"

definition getRooDirectoriesForCwd :: "node_env \<Rightarrow> string \<Rightarrow> string list" where
  "getRooDirectoriesForCwd env cwd =
     ([] @ [getGlobalRooDirectory env]) @ [getProjectRooDirectoryForCwd env cwd]"

definition getAllRooDirectoriesForCwd :: "node_env \<Rightarrow> string \<Rightarrow> string list" where
  "getAllRooDirectoriesForCwd env cwd =
     (let directories = [];
          directories = directories @ [getGlobalRooDirectory env];
          directories = directories @ [getProjectRooDirectoryForCwd env cwd];
          subfolderDirs = discoverSubfolderRooDirectories env cwd
      in directories @ subfolderDirs)"

definition getAgentsDirectoriesForCwd :: "node_env \<Rightarrow> string \<Rightarrow> string list" where
  "getAgentsDirectoriesForCwd env cwd =
     (let directories = [] @ [cwd];
          subfolderRooDirs = discoverSubfolderRooDirectories env cwd
      in fold (\<lambda>rooDir directories. directories @ [dirname env rooDir])
           subfolderRooDirs directories)"

section \<open>A POSIX instance of the path functions\<close>

text \<open>
  Node's \<^verbatim>\<open>path.posix.join\<close> and \<^verbatim>\<open>path.posix.dirname\<close>, used for the concrete
  environments below. \<open>splitOn\<close> cuts a string at every occurrence of a character;
  \<open>normalizeSegments\<close> drops empty and \<^verbatim>\<open>.\<close> segments and resolves \<^verbatim>\<open>..\<close>
  against the segment before it, keeping leading \<^verbatim>\<open>..\<close> only for a relative path.
\<close>

fun splitOn :: "char \<Rightarrow> string \<Rightarrow> string list" where
  "splitOn d [] = [[]]"
| "splitOn d (c # cs) =
     (if c = d then [] # splitOn d cs
      else (case splitOn d cs of [] \<Rightarrow> [[c]] | s # ss \<Rightarrow> (c # s) # ss))"

fun joinWith :: "string \<Rightarrow> string list \<Rightarrow> string" where
  "joinWith d [] = []"
| "joinWith d [s] = s"
| "joinWith d (s # ss) = s @ d @ joinWith d ss"

fun normalizeSegments :: "bool \<Rightarrow> string list \<Rightarrow> string list \<Rightarrow> string list" where
  "normalizeSegments allowAboveRoot res [] = res"
| "normalizeSegments allowAboveRoot res (s # ss) =
     (if s = [] \<or> s = ''.'' then normalizeSegments allowAboveRoot res ss
      else if s = ''..'' then
        (if res \<noteq> [] \<and> last res \<noteq> ''..''
         then normalizeSegments allowAboveRoot (butlast res) ss
         else if allowAboveRoot then normalizeSegments allowAboveRoot (res @ [''..'']) ss
         else normalizeSegments allowAboveRoot res ss)
      else normalizeSegments allowAboveRoot (res @ [s]) ss)"

definition posixNormalize :: "string \<Rightarrow> string" where
  "posixNormalize p =
     (if p = [] then ''.''
      else
        (let isAbsolute = (hd p = CHR ''/'');
             trailingSeparator = (last p = CHR ''/'');
             body = joinWith ''/'' (normalizeSegments (\<not> isAbsolute) [] (splitOn CHR ''/'' p))
         in if body = [] then
              (if isAbsolute then ''/'' else if trailingSeparator then ''./'' else ''.'')
            else
              (let body = (if trailingSeparator then body @ ''/'' else body)
               in if isAbsolute then ''/'' @ body else body)))"

definition posixJoin :: "string list \<Rightarrow> string" where
  "posixJoin args =
     (let joined = joinWith ''/'' (filter (\<lambda>a. a \<noteq> []) args)
      in if joined = [] then ''.'' else posixNormalize joined)"

text \<open>
  \<^verbatim>\<open>path.posix.dirname\<close>: trailing slashes are skipped, then the path is cut at the
  last slash that is not its first character.
\<close>

definition posixDirname :: "string \<Rightarrow> string" where
  "posixDirname p =
     (if p = [] then ''.''
      else
        (let hasRoot = (hd p = CHR ''/'');
             stem = rev (dropWhile (\<lambda>c. c = CHR ''/'') (rev (tl p)));
             cut = rev (dropWhile (\<lambda>c. c \<noteq> CHR ''/'') (rev stem))
         in if cut = [] then (if hasRoot then ''/'' else ''.'')
            else if hasRoot \<and> length cut = 1 then ''//''
            else hd p # butlast cut))"

section \<open>The write-protection classifier\<close>

text \<open>
  The pattern list below is the one the test suite of \<^verbatim>\<open>RooProtectedController\<close>
  expects from \<^verbatim>\<open>getProtectedPatterns\<close>.
\<close>

definition PROTECTED_PATTERNS :: "string list" where
  "PROTECTED_PATTERNS =
     [''.rooignore'', ''.roomodes'', ''.roorules*'', ''.clinerules*'', ''.bitx/**'',
      ''.vscode/**'', ''*.code-workspace'', ''.rooprotected'', ''AGENTS.md'', ''AGENT.md'']"

text \<open>
  Modelled from the spec: the class \<^verbatim>\<open>RooProtectedController\<close> is not among the
  sources, only its test suite is. The spec compiles each pattern into segments that are
  literal, a single-level wildcard or the multi-level wildcard.
\<close>

datatype segment = Literal string | Wildcard string | DoubleStar

text \<open>
  Modelled from the spec: the compilation of one pattern segment (missing with
  \<^verbatim>\<open>RooProtectedController\<close>): \<^verbatim>\<open>**\<close> is the multi-level wildcard, a segment
  with a star is a single-level wildcard, any other segment is literal.
\<close>

definition compileSegment :: "string \<Rightarrow> segment" where
  "compileSegment s =
     (if s = ''**'' then DoubleStar
      else if CHR ''*'' \<in> set s then Wildcard s
      else Literal s)"

text \<open>
  Modelled from the spec: the compilation of a pattern (missing with
  \<^verbatim>\<open>RooProtectedController\<close>), segment by segment.
\<close>

definition compilePattern :: "string \<Rightarrow> segment list" where
  "compilePattern p = map compileSegment (splitOn CHR ''/'' p)"

text \<open>
  Modelled from the spec: the single-level wildcard (missing with
  \<^verbatim>\<open>RooProtectedController\<close>). The star matches any run of characters of one
  segment, the empty run too, as a file name or extension wildcard; every other
  character matches itself.
\<close>

fun globMatch :: "string \<Rightarrow> string \<Rightarrow> bool" where
  "globMatch [] [] = True"
| "globMatch [] (x # xs) = False"
| "globMatch (c # cs) [] = (c = CHR ''*'' \<and> globMatch cs [])"
| "globMatch (c # cs) (x # xs) =
     (if c = CHR ''*'' then globMatch cs (x # xs) \<or> globMatch (c # cs) xs
      else c = x \<and> globMatch cs xs)"

text \<open>
  Modelled from the spec: one compiled segment against one path segment (missing with
  \<^verbatim>\<open>RooProtectedController\<close>).
\<close>

fun segmentMatch :: "segment \<Rightarrow> string \<Rightarrow> bool" where
  "segmentMatch (Literal l) s = (s = l)"
| "segmentMatch (Wildcard g) s = globMatch g s"
| "segmentMatch DoubleStar s = True"

text \<open>
  Modelled from the spec: a compiled pattern against a whole list of path segments
  (missing with \<^verbatim>\<open>RooProtectedController\<close>). The multi-level wildcard matches
  across directory boundaries: one segment or more.
\<close>

fun segmentsMatch :: "segment list \<Rightarrow> string list \<Rightarrow> bool" where
  "segmentsMatch [] [] = True"
| "segmentsMatch [] (s # ss) = False"
| "segmentsMatch (p # ps) [] = False"
| "segmentsMatch (DoubleStar # ps) (s # ss) =
     (segmentsMatch ps ss \<or> segmentsMatch (DoubleStar # ps) ss)"
| "segmentsMatch (p # ps) (s # ss) = (segmentMatch p s \<and> segmentsMatch ps ss)"

text \<open>
  Modelled from the spec: a pattern without a leading separator matches the trailing
  segments of the candidate at any depth (missing with \<^verbatim>\<open>RooProtectedController\<close>).
\<close>

fun matchesAnywhere :: "segment list \<Rightarrow> string list \<Rightarrow> bool" where
  "matchesAnywhere ps [] = segmentsMatch ps []"
| "matchesAnywhere ps (s # ss) = (segmentsMatch ps (s # ss) \<or> matchesAnywhere ps ss)"

text \<open>
  Modelled from the spec: one pattern string against the segments of a candidate (missing
  with \<^verbatim>\<open>RooProtectedController\<close>). Only a pattern with a leading separator is tied to
  the root.
\<close>

definition patternMatches :: "string \<Rightarrow> string list \<Rightarrow> bool" where
  "patternMatches pat segs =
     (case pat of
        c # rest \<Rightarrow>
          if c = CHR ''/'' then segmentsMatch (compilePattern rest) segs
          else matchesAnywhere (compilePattern pat) segs
      | [] \<Rightarrow> False)"

text \<open>
  Modelled from the spec: the conversion of all separators to one canonical form
  (missing with \<^verbatim>\<open>RooProtectedController\<close>).
\<close>

definition toPosix :: "string \<Rightarrow> string" where
  "toPosix s = map (\<lambda>c. if c = CHR 0x5C then CHR ''/'' else c) s"

text \<open>
  Modelled from the spec: what the spec calls an absolute path, read on the canonical
  form (missing with \<^verbatim>\<open>RooProtectedController\<close>).
\<close>

definition isAbsolute :: "string \<Rightarrow> bool" where
  "isAbsolute p = (case p of [] \<Rightarrow> False | c # cs \<Rightarrow> c = CHR ''/'')"

text \<open>
  Modelled from the spec: the normalisation of a candidate (missing with
  \<^verbatim>\<open>RooProtectedController\<close>). Separators are converted first; an absolute path
  under the workspace root is rewritten to its root-relative form.
\<close>

definition toRelative :: "string \<Rightarrow> string \<Rightarrow> string" where
  "toRelative cwd filePath =
     (let p = toPosix filePath; root = toPosix cwd @ ''/''
      in if isAbsolute p \<and> prefix root p then drop (length root) p else p)"

text \<open>
  Modelled from the spec: \<^verbatim>\<open>isWriteProtected\<close> of
  \<^verbatim>\<open>RooProtectedController\<close>, which is not among the sources. The normalised path is
  tested against every pattern; one match makes it protected.
\<close>

definition isWriteProtected :: "string \<Rightarrow> string \<Rightarrow> bool" where
  "isWriteProtected cwd filePath =
     list_ex (\<lambda>pat. patternMatches pat (splitOn CHR ''/'' (toRelative cwd filePath)))
       PROTECTED_PATTERNS"

record protection_record =
  rpath :: string
  isProtected :: bool

text \<open>
  Modelled from the spec: \<^verbatim>\<open>annotatePathsWithProtection\<close> of
  \<^verbatim>\<open>RooProtectedController\<close>, which is not among the sources: an ordered sequence of
  records, one for each input path, built from first to last.
\<close>

fun annotatePathsWithProtection :: "string \<Rightarrow> string list \<Rightarrow> protection_record list" where
  "annotatePathsWithProtection cwd [] = []"
| "annotatePathsWithProtection cwd (filePath # paths) =
     \<lparr> rpath = filePath, isProtected = isWriteProtected cwd filePath \<rparr>
       # annotatePathsWithProtection cwd paths"

section \<open>Concrete environments\<close>

text \<open>
  The environments of the examples follow the test suite of the service: the home
  directory is \<^verbatim>\<open>/mock/home\<close>, the file system is a table of read outcomes (a path
  not in the table does not exist), and the search returns a fixed outcome.
\<close>

definition errorWithCode :: "string \<Rightarrow> js_error" where
  "errorWithCode c = \<lparr> code = Some c, message = c \<rparr>"

definition fileTable :: "(string \<times> (js_error + string)) list \<Rightarrow> string \<Rightarrow> js_error + string" where
  "fileTable files p =
     (case map_of files p of Some r \<Rightarrow> r | None \<Rightarrow> Inl (errorWithCode ''ENOENT''))"

definition posixEnv ::
  "(string \<times> (js_error + string)) list \<Rightarrow> (js_error + file_result list) \<Rightarrow> node_env" where
  "posixEnv files found =
     \<lparr> homedir = ''/mock/home'', join = posixJoin, dirname = posixDirname,
       readFile = fileTable files, executeRipgrep = (\<lambda>args workspacePath. found) \<rparr>"

definition foundFile :: "string \<Rightarrow> file_result" where
  "foundFile p = \<lparr> path = p, ftype = ''file'' \<rparr>"

text \<open>
  The read failures that \<^verbatim>\<open>readFileIfExists\<close> takes for absence.
\<close>

definition isAbsenceError :: "js_error \<Rightarrow> bool" where
  "isAbsenceError e =
     (code e = Some ''ENOENT'' \<or> code e = Some ''ENOTDIR'' \<or> code e = Some ''EISDIR'')"

definition emptyGlobalEnv :: node_env where
  "emptyGlobalEnv =
     posixEnv [(''/mock/home/.bitx/rules/rules.md'', Inr []),
               (''/project/path/.bitx/rules/rules.md'', Inr ''project content'')] (Inr [])"

definition emptyProjectEnv :: node_env where
  "emptyProjectEnv =
     posixEnv [(''/mock/home/.bitx/rules/rules.md'', Inr ''global content''),
               (''/project/path/.bitx/rules/rules.md'', Inr [])] (Inr [])"

definition emptyBothEnv :: node_env where
  "emptyBothEnv =
     posixEnv [(''/mock/home/.bitx/rules/rules.md'', Inr []),
               (''/project/path/.bitx/rules/rules.md'', Inr [])] (Inr [])"

definition bothPresentEnv :: node_env where
  "bothPresentEnv =
     posixEnv [(''/mock/home/.bitx/rules/rules.md'', Inr ''global content''),
               (''/project/path/.bitx/rules/rules.md'', Inr ''project content'')] (Inr [])"

definition deniedProjectEnv :: node_env where
  "deniedProjectEnv =
     posixEnv [(''/mock/home/.bitx/rules/rules.md'', Inl (errorWithCode ''EISDIR'')),
               (''/project/path/.bitx/rules/rules.md'', Inl (errorWithCode ''EACCES''))] (Inr [])"

definition monorepoFiles :: "file_result list" where
  "monorepoFiles =
     [foundFile ''zebra/.bitx/rules/rule.md'',
      foundFile ''.bitx/rules/rule.md'',
      foundFile ''./.bitx/rules/rule.md'',
      foundFile ''apple/.bitx/rules/rule1.md'',
      foundFile ''apple/.bitx/rules/rule2.md'',
      foundFile ''packages/core/.bitx/rules-code/rule.md'']"

definition monorepoEnv :: node_env where
  "monorepoEnv = posixEnv [] (Inr monorepoFiles)"

definition brokenSearchEnv :: node_env where
  "brokenSearchEnv = posixEnv [] (Inl \<lparr> code = None, message = ''ripgrep failed'' \<rparr>)"

definition coreUtilsFiles :: "file_result list" where
  "coreUtilsFiles =
     [foundFile ''core/.bitx/rules/rule.md'', foundFile ''core-utils/.bitx/rules/rule.md'']"

definition coreUtilsEnv :: node_env where
  "coreUtilsEnv = posixEnv [] (Inr coreUtilsFiles)"

section \<open>Facts about the concrete environments\<close>

lemma posixEnv_sel:
  "homedir (posixEnv fs rg) = ''/mock/home''"
  "join (posixEnv fs rg) = posixJoin"
  "dirname (posixEnv fs rg) = posixDirname"
  "readFile (posixEnv fs rg) = fileTable fs"
  "executeRipgrep (posixEnv fs rg) = (\<lambda>args workspacePath. rg)"
  by (simp_all add: posixEnv_def)

lemma posixJoin_examples:
  "posixJoin [''/project/path'', ''.bitx''] = ''/project/path/.bitx''"
  "posixJoin [''/project/path'', ''.'', ''.bitx''] = ''/project/path/.bitx''"
  "posixJoin [''/project/path'', ''zebra'', ''.bitx''] = ''/project/path/zebra/.bitx''"
  "posixJoin [''/project/path'', ''apple'', ''.bitx''] = ''/project/path/apple/.bitx''"
  "posixJoin [''/project/path'', ''packages/core'', ''.bitx'']
     = ''/project/path/packages/core/.bitx''"
  "posixJoin [''/mock/home'', ''.bitx''] = ''/mock/home/.bitx''"
  "posixJoin [''/mock/home/.bitx'', ''rules/rules.md''] = ''/mock/home/.bitx/rules/rules.md''"
  "posixJoin [''/project/path/.bitx'', ''rules/rules.md'']
     = ''/project/path/.bitx/rules/rules.md''"
  by (simp_all add: posixJoin_def posixNormalize_def)

lemma posixDirname_examples:
  "posixDirname ''/project/path/zebra/.bitx'' = ''/project/path/zebra''"
  "posixDirname ''/project/path/apple/.bitx'' = ''/project/path/apple''"
  "posixDirname ''/project/path/packages/core/.bitx'' = ''/project/path/packages/core''"
  by (simp_all add: posixDirname_def)

lemma posix_paths:
  "globalFilePath (posixEnv fs rg) ''rules/rules.md'' = ''/mock/home/.bitx/rules/rules.md''"
  "projectFilePath (posixEnv fs rg) ''rules/rules.md'' ''/project/path''
     = ''/project/path/.bitx/rules/rules.md''"
  by (simp_all add: globalFilePath_def projectFilePath_def getGlobalRooDirectory_def
        getProjectRooDirectoryForCwd_def posixEnv_sel posixJoin_examples)

lemma absence_codes:
  "isAbsenceError (errorWithCode ''EISDIR'')"
  "isAbsenceError (errorWithCode ''ENOENT'')"
  "isAbsenceError (errorWithCode ''ENOTDIR'')"
  "\<not> isAbsenceError (errorWithCode ''EACCES'')"
  by (simp_all add: isAbsenceError_def errorWithCode_def)

lemma deniedProjectEnv_reads:
  "readFile deniedProjectEnv (globalFilePath deniedProjectEnv ''rules/rules.md'')
     = Inl (errorWithCode ''EISDIR'')"
  "readFile deniedProjectEnv (projectFilePath deniedProjectEnv ''rules/rules.md'' ''/project/path'')
     = Inl (errorWithCode ''EACCES'')"
  by (simp_all add: deniedProjectEnv_def posix_paths posixEnv_sel fileTable_def)

lemma rooMatch_examples:
  "rooMatch ''zebra/.bitx/rules/rule.md'' = Some ''zebra''"
  "rooMatch ''.bitx/rules/rule.md'' = None"
  "rooMatch ''./.bitx/rules/rule.md'' = Some ''.''"
  "rooMatch ''apple/.bitx/rules/rule1.md'' = Some ''apple''"
  "rooMatch ''apple/.bitx/rules/rule2.md'' = Some ''apple''"
  "rooMatch ''packages/core/.bitx/rules-code/rule.md'' = Some ''packages/core''"
  by (simp_all add: rooMatch_def isSeparator_def isLineTerminator_def)

lemma monorepo_fold:
  "fold (collectRooDir monorepoEnv ''/project/path'') monorepoFiles []
   = [''/project/path/zebra/.bitx'', ''/project/path/apple/.bitx'',
      ''/project/path/packages/core/.bitx'']"
  by (simp add: collectRooDir_def monorepoEnv_def monorepoFiles_def posixEnv_sel foundFile_def
        rooMatch_examples posixJoin_examples setAdd_def)

lemma monorepo_sort:
  "sort [''/project/path/zebra/.bitx'', ''/project/path/apple/.bitx'',
         ''/project/path/packages/core/.bitx'']
   = [''/project/path/apple/.bitx'', ''/project/path/packages/core/.bitx'',
      ''/project/path/zebra/.bitx'']"
  by code_simp

lemma monorepo_discover:
  "discoverSubfolderRooDirectories monorepoEnv ''/project/path''
   = [''/project/path/apple/.bitx'', ''/project/path/packages/core/.bitx'',
      ''/project/path/zebra/.bitx'']"
proof -
  have "executeRipgrep monorepoEnv (ripgrepArgs ''/project/path'') ''/project/path''
          = Inr monorepoFiles"
    by (simp add: monorepoEnv_def posixEnv_sel)
  then show ?thesis
    by (simp only: discoverSubfolderRooDirectories_def sum.case monorepo_fold monorepo_sort)
qed

lemma monorepo_roots:
  "getGlobalRooDirectory monorepoEnv = ''/mock/home/.bitx''"
  "getProjectRooDirectoryForCwd monorepoEnv ''/project/path'' = ''/project/path/.bitx''"
  by (simp_all add: getGlobalRooDirectory_def getProjectRooDirectoryForCwd_def
        monorepoEnv_def posixEnv_sel posixJoin_examples)

lemma brokenSearch_discover:
  "discoverSubfolderRooDirectories brokenSearchEnv ''/project/path'' = []"
  by (simp add: discoverSubfolderRooDirectories_def brokenSearchEnv_def posixEnv_sel)

section \<open>Loading and merging\<close>

lemma readFileIfExists_cases:
  "readFileIfExists env f =
     (case readFile env f of
        Inr t \<Rightarrow> Inr (Some t)
      | Inl e \<Rightarrow> if isAbsenceError e then Inr None else Inl e)"
  by (simp add: readFileIfExists_def isAbsenceError_def split: sum.splits)

text \<open>
  C1, as the claim states it, fails: with an empty global file and a project file that
  holds \<^verbatim>\<open>project content\<close>, both sources are present, and the merged text is the
  project text alone, without the label.
\<close>

theorem loadConfiguration_empty_global_counterexample:
  "readFileIfExists emptyGlobalEnv (globalFilePath emptyGlobalEnv ''rules/rules.md'')
     = Inr (Some [])
   \<and> readFileIfExists emptyGlobalEnv
        (projectFilePath emptyGlobalEnv ''rules/rules.md'' ''/project/path'')
       = Inr (Some ''project content'')
   \<and> loadConfiguration emptyGlobalEnv ''rules/rules.md'' ''/project/path''
       = Inr \<lparr> global = Some [], project = Some ''project content'',
               merged = ''project content'' \<rparr>
   \<and> loadConfiguration emptyGlobalEnv ''rules/rules.md'' ''/project/path''
       \<noteq> Inr \<lparr> global = Some [], project = Some ''project content'',
               merged = [] @ overrideLabel @ ''project content'' \<rparr>"
  by (simp add: emptyGlobalEnv_def posix_paths posixEnv_sel fileTable_def loadConfiguration_def
        readFileIfExists_def mergeContents_def overrideLabel_def)

text \<open>
  C1 (amended): for all optional texts \<open>g\<close> and \<open>p\<close> that the two reads give, the call
  returns them as its \<open>global\<close> and \<open>project\<close> fields; \<open>merged\<close> is empty when neither
  source is present, is the one text when exactly one is present, is
  \<open>g\<close>, the label and \<open>p\<close> when both are present and both are non-empty, and is \<open>g\<close>
  followed by \<open>p\<close> with no label when both are present and one of them is empty.
\<close>

theorem loadConfiguration_merged_nonempty_sources:
  assumes "readFileIfExists env (globalFilePath env relativePath) = Inr g"
      and "readFileIfExists env (projectFilePath env relativePath cwd) = Inr p"
  shows "loadConfiguration env relativePath cwd =
           Inr \<lparr> global = g, project = p,
                 merged = (case (g, p) of
                             (None, None) \<Rightarrow> []
                           | (Some a, None) \<Rightarrow> a
                           | (None, Some b) \<Rightarrow> b
                           | (Some a, Some b) \<Rightarrow>
                               if a \<noteq> [] \<and> b \<noteq> [] then a @ overrideLabel @ b
                               else a @ b) \<rparr>"
  using assms
  by (cases g; cases p) (simp_all add: loadConfiguration_def mergeContents_def)

theorem loadConfiguration_merged_nonempty_sources_witness:
  "loadConfiguration bothPresentEnv ''rules/rules.md'' ''/project/path''
   = Inr \<lparr> global = Some ''global content'', project = Some ''project content'',
           merged = ''global content'' @ overrideLabel @ ''project content'' \<rparr>"
  using loadConfiguration_merged_nonempty_sources
          [of bothPresentEnv "''rules/rules.md''" "Some ''global content''"
              "''/project/path''" "Some ''project content''"]
  by (simp add: bothPresentEnv_def posix_paths posixEnv_sel fileTable_def readFileIfExists_def)

text \<open>
  C2: a read that fails with ENOENT, ENOTDIR or EISDIR gives \<^verbatim>\<open>null\<close> for its source:
  the call never raises such an error, and a result it returns has \<open>None\<close> in the field
  of that source. Any other read failure is raised to the caller: when the global read
  fails so the call raises that error, when the project read fails so the call raises an
  error that is not an absence (the project's, or the global's when that read failed
  too), and a call that returns a result had no such failure on either side.
\<close>

theorem loadConfiguration_error_policy:
  "(readFile env f = Inl e \<and> isAbsenceError e \<longrightarrow> readFileIfExists env f = Inr None)
   \<and> (readFile env f = Inl e \<and> \<not> isAbsenceError e \<longrightarrow> readFileIfExists env f = Inl e)
   \<and> (loadConfiguration env relativePath cwd = Inl e \<longrightarrow>
        \<not> isAbsenceError e
        \<and> (readFile env (globalFilePath env relativePath) = Inl e
           \<or> readFile env (projectFilePath env relativePath cwd) = Inl e))
   \<and> (loadConfiguration env relativePath cwd = Inr r
        \<and> readFile env (globalFilePath env relativePath) = Inl e \<longrightarrow>
        isAbsenceError e \<and> global r = None)
   \<and> (loadConfiguration env relativePath cwd = Inr r
        \<and> readFile env (projectFilePath env relativePath cwd) = Inl e \<longrightarrow>
        isAbsenceError e \<and> project r = None)
   \<and> (readFile env (globalFilePath env relativePath) = Inl e \<and> \<not> isAbsenceError e \<longrightarrow>
        loadConfiguration env relativePath cwd = Inl e)
   \<and> (readFile env (projectFilePath env relativePath cwd) = Inl e \<and> \<not> isAbsenceError e \<longrightarrow>
        (\<exists>e'. loadConfiguration env relativePath cwd = Inl e' \<and> \<not> isAbsenceError e'
              \<and> (e' = e \<or> readFile env (globalFilePath env relativePath) = Inl e')))"
  by (auto simp: loadConfiguration_def readFileIfExists_cases split: sum.splits if_splits)

theorem loadConfiguration_error_policy_witness:
  "readFileIfExists deniedProjectEnv (globalFilePath deniedProjectEnv ''rules/rules.md'')
     = Inr None
   \<and> readFileIfExists deniedProjectEnv
        (projectFilePath deniedProjectEnv ''rules/rules.md'' ''/project/path'')
       = Inl (errorWithCode ''EACCES'')
   \<and> loadConfiguration deniedProjectEnv ''rules/rules.md'' ''/project/path''
       = Inl (errorWithCode ''EACCES'')"
proof -
  let ?G = "globalFilePath deniedProjectEnv ''rules/rules.md''"
  let ?P = "projectFilePath deniedProjectEnv ''rules/rules.md'' ''/project/path''"
  have g: "readFileIfExists deniedProjectEnv ?G = Inr None"
    using loadConfiguration_error_policy [of deniedProjectEnv ?G "errorWithCode ''EISDIR''"]
    by (simp add: deniedProjectEnv_reads absence_codes)
  have p: "readFileIfExists deniedProjectEnv ?P = Inl (errorWithCode ''EACCES'')"
    using loadConfiguration_error_policy [of deniedProjectEnv ?P "errorWithCode ''EACCES''"]
    by (simp add: deniedProjectEnv_reads absence_codes)
  obtain e' where e':
      "loadConfiguration deniedProjectEnv ''rules/rules.md'' ''/project/path'' = Inl e'"
      "e' = errorWithCode ''EACCES'' \<or> readFile deniedProjectEnv ?G = Inl e'"
      "\<not> isAbsenceError e'"
    using loadConfiguration_error_policy
            [of deniedProjectEnv ?P "errorWithCode ''EACCES''" "''rules/rules.md''"
                "''/project/path''"]
    by (auto simp: deniedProjectEnv_reads absence_codes)
  then have "e' = errorWithCode ''EACCES''"
    by (auto simp: deniedProjectEnv_reads absence_codes)
  with g p e' show ?thesis by simp
qed

text \<open>
  C10: merging goes by truthiness, not by presence. When both files exist and the global
  one is empty, the result has the empty string as \<open>global\<close> and the project text as
  \<open>merged\<close>, with no label; when the project file is empty, \<open>merged\<close> is the global text
  alone; when both are empty, \<open>merged\<close> is empty.
\<close>

theorem loadConfiguration_truthiness:
  assumes "readFile env (globalFilePath env relativePath) = Inr g"
      and "readFile env (projectFilePath env relativePath cwd) = Inr p"
  shows "(g = [] \<longrightarrow> loadConfiguration env relativePath cwd
                      = Inr \<lparr> global = Some [], project = Some p, merged = p \<rparr>)
       \<and> (p = [] \<longrightarrow> loadConfiguration env relativePath cwd
                      = Inr \<lparr> global = Some g, project = Some [], merged = g \<rparr>)
       \<and> (g = [] \<and> p = [] \<longrightarrow> loadConfiguration env relativePath cwd
                      = Inr \<lparr> global = Some [], project = Some [], merged = [] \<rparr>)"
  using assms
  by (simp add: loadConfiguration_def readFileIfExists_def mergeContents_def)

theorem loadConfiguration_truthiness_witness:
  "loadConfiguration emptyGlobalEnv ''rules/rules.md'' ''/project/path''
     = Inr \<lparr> global = Some [], project = Some ''project content'',
             merged = ''project content'' \<rparr>
   \<and> loadConfiguration emptyProjectEnv ''rules/rules.md'' ''/project/path''
     = Inr \<lparr> global = Some ''global content'', project = Some [],
             merged = ''global content'' \<rparr>
   \<and> loadConfiguration emptyBothEnv ''rules/rules.md'' ''/project/path''
     = Inr \<lparr> global = Some [], project = Some [], merged = [] \<rparr>"
proof -
  have a: "loadConfiguration emptyGlobalEnv ''rules/rules.md'' ''/project/path''
     = Inr \<lparr> global = Some [], project = Some ''project content'',
             merged = ''project content'' \<rparr>"
    using loadConfiguration_truthiness
            [of emptyGlobalEnv "''rules/rules.md''" "[]" "''/project/path''"
                "''project content''"]
    by (simp add: emptyGlobalEnv_def posix_paths posixEnv_sel fileTable_def)
  have b: "loadConfiguration emptyProjectEnv ''rules/rules.md'' ''/project/path''
     = Inr \<lparr> global = Some ''global content'', project = Some [],
             merged = ''global content'' \<rparr>"
    using loadConfiguration_truthiness
            [of emptyProjectEnv "''rules/rules.md''" "''global content''" "''/project/path''"
                "[]"]
    by (simp add: emptyProjectEnv_def posix_paths posixEnv_sel fileTable_def)
  have c: "loadConfiguration emptyBothEnv ''rules/rules.md'' ''/project/path''
     = Inr \<lparr> global = Some [], project = Some [], merged = [] \<rparr>"
    using loadConfiguration_truthiness
            [of emptyBothEnv "''rules/rules.md''" "[]" "''/project/path''" "[]"]
    by (simp add: emptyBothEnv_def posix_paths posixEnv_sel fileTable_def)
  from a b c show ?thesis by simp
qed

section \<open>Discovery\<close>

lemma setAdd_distinct: "distinct s \<Longrightarrow> distinct (setAdd x s)"
  by (simp add: setAdd_def)

lemma setAdd_set: "set (setAdd x s) = insert x (set s)"
  by (auto simp: setAdd_def)

lemma collectRooDir_distinct: "distinct s \<Longrightarrow> distinct (collectRooDir env cwd r s)"
  by (simp add: collectRooDir_def Let_def setAdd_distinct split: option.splits)

lemma collectRooDir_excludes_root:
  "join env [cwd, ''.bitx''] \<notin> set s \<Longrightarrow>
   join env [cwd, ''.bitx''] \<notin> set (collectRooDir env cwd r s)"
  by (auto simp: collectRooDir_def Let_def setAdd_set split: option.splits)

lemma fold_collectRooDir_distinct:
  "distinct s \<Longrightarrow> distinct (fold (collectRooDir env cwd) rs s)"
  by (induction rs arbitrary: s) (simp_all add: collectRooDir_distinct)

lemma fold_collectRooDir_excludes_root:
  "join env [cwd, ''.bitx''] \<notin> set s \<Longrightarrow>
   join env [cwd, ''.bitx''] \<notin> set (fold (collectRooDir env cwd) rs s)"
  by (induction rs arbitrary: s) (simp_all add: collectRooDir_excludes_root)

lemma discover_excludes_root:
  "join env [cwd, ''.bitx''] \<notin> set (discoverSubfolderRooDirectories env cwd)"
proof (cases "executeRipgrep env (ripgrepArgs cwd) cwd")
  case (Inl e)
  then show ?thesis by (simp add: discoverSubfolderRooDirectories_def)
next
  case (Inr results)
  have "join env [cwd, ''.bitx''] \<notin> set (fold (collectRooDir env cwd) results [])"
    by (rule fold_collectRooDir_excludes_root) simp
  with Inr show ?thesis by (simp add: discoverSubfolderRooDirectories_def)
qed

lemma discover_distinct: "distinct (discoverSubfolderRooDirectories env cwd)"
proof (cases "executeRipgrep env (ripgrepArgs cwd) cwd")
  case (Inl e)
  then show ?thesis by (simp add: discoverSubfolderRooDirectories_def)
next
  case (Inr results)
  have "distinct (fold (collectRooDir env cwd) results [])"
    by (rule fold_collectRooDir_distinct) simp
  with Inr show ?thesis by (simp add: discoverSubfolderRooDirectories_def)
qed

lemma discover_sorted: "sorted (discoverSubfolderRooDirectories env cwd)"
  by (cases "executeRipgrep env (ripgrepArgs cwd) cwd")
     (simp_all add: discoverSubfolderRooDirectories_def)

lemma discover_strictly_ascending:
  "sorted_wrt (<) (discoverSubfolderRooDirectories env cwd)"
  by (simp add: strict_sorted_iff discover_sorted discover_distinct)

text \<open>
  C3: for every workspace root, the list that \<^verbatim>\<open>discoverSubfolderRooDirectories\<close>
  returns never contains the project-root configuration directory, has no duplicates
  and is strictly ascending in the lexicographic order of the path strings.
\<close>

theorem discoverSubfolderRooDirectories_strictly_sorted:
  "getProjectRooDirectoryForCwd env cwd \<notin> set (discoverSubfolderRooDirectories env cwd)
   \<and> distinct (discoverSubfolderRooDirectories env cwd)
   \<and> sorted_wrt (<) (discoverSubfolderRooDirectories env cwd)"
proof -
  have "getProjectRooDirectoryForCwd env cwd = join env [cwd, ''.bitx'']"
    by (simp add: getProjectRooDirectoryForCwd_def)
  then show ?thesis
    using discover_excludes_root [of env cwd] discover_distinct [of env cwd]
          discover_strictly_ascending [of env cwd]
    by simp
qed

theorem discoverSubfolderRooDirectories_strictly_sorted_witness:
  "''/project/path/.bitx''
     \<notin> set [''/project/path/apple/.bitx'', ''/project/path/packages/core/.bitx'',
            ''/project/path/zebra/.bitx'']
   \<and> distinct [''/project/path/apple/.bitx'', ''/project/path/packages/core/.bitx'',
               ''/project/path/zebra/.bitx'']
   \<and> sorted_wrt (<) [''/project/path/apple/.bitx'', ''/project/path/packages/core/.bitx'',
                     ''/project/path/zebra/.bitx'']"
  using discoverSubfolderRooDirectories_strictly_sorted [of monorepoEnv "''/project/path''"]
  unfolding monorepo_discover monorepo_roots .

text \<open>
  C4: for every workspace root, when the file enumerator fails, with any error,
  \<^verbatim>\<open>discoverSubfolderRooDirectories\<close> returns the empty list and raises nothing.
\<close>

theorem discoverSubfolderRooDirectories_failure_empty:
  "executeRipgrep env (ripgrepArgs cwd) cwd = Inl error \<Longrightarrow>
   discoverSubfolderRooDirectories env cwd = []"
  by (simp add: discoverSubfolderRooDirectories_def)

theorem discoverSubfolderRooDirectories_failure_empty_witness:
  "executeRipgrep brokenSearchEnv (ripgrepArgs ''/project/path'') ''/project/path''
     = Inl \<lparr> code = None, message = ''ripgrep failed'' \<rparr>
   \<and> discoverSubfolderRooDirectories brokenSearchEnv ''/project/path'' = []"
proof -
  have f: "executeRipgrep brokenSearchEnv (ripgrepArgs ''/project/path'') ''/project/path''
     = Inl \<lparr> code = None, message = ''ripgrep failed'' \<rparr>"
    by (simp add: brokenSearchEnv_def posixEnv_sel)
  from f discoverSubfolderRooDirectories_failure_empty [OF f] show ?thesis by simp
qed

text \<open>
  C6: for every workspace root, \<^verbatim>\<open>getAllRooDirectoriesForCwd\<close> starts with the global
  directory and the project directory, in that order, goes on with exactly the discovered
  subfolder directories in their order, and so has two elements more than the discovery.
\<close>

theorem getAllRooDirectoriesForCwd_layout:
  "take 2 (getAllRooDirectoriesForCwd env cwd)
     = [getGlobalRooDirectory env, getProjectRooDirectoryForCwd env cwd]
   \<and> drop 2 (getAllRooDirectoriesForCwd env cwd) = discoverSubfolderRooDirectories env cwd
   \<and> length (getAllRooDirectoriesForCwd env cwd)
       = 2 + length (discoverSubfolderRooDirectories env cwd)"
  by (simp add: getAllRooDirectoriesForCwd_def)

theorem getAllRooDirectoriesForCwd_layout_witness:
  "getAllRooDirectoriesForCwd monorepoEnv ''/project/path''
   = [''/mock/home/.bitx'', ''/project/path/.bitx'',
      ''/project/path/apple/.bitx'', ''/project/path/packages/core/.bitx'',
      ''/project/path/zebra/.bitx'']"
proof -
  have "getAllRooDirectoriesForCwd monorepoEnv ''/project/path''
        = take 2 (getAllRooDirectoriesForCwd monorepoEnv ''/project/path'')
          @ drop 2 (getAllRooDirectoriesForCwd monorepoEnv ''/project/path'')"
    by simp
  also have "\<dots> = [getGlobalRooDirectory monorepoEnv,
                    getProjectRooDirectoryForCwd monorepoEnv ''/project/path'']
          @ discoverSubfolderRooDirectories monorepoEnv ''/project/path''"
    using getAllRooDirectoriesForCwd_layout [of monorepoEnv "''/project/path''"] by simp
  finally show ?thesis
    by (simp add: monorepo_discover monorepo_roots)
qed

lemma fold_push:
  "fold (\<lambda>x acc. acc @ [f x]) xs acc = acc @ map f xs"
  by (induction xs arbitrary: acc) simp_all

lemma coreUtils_fold:
  "fold (collectRooDir coreUtilsEnv ''/project/path'') coreUtilsFiles []
   = [''/project/path/core/.bitx'', ''/project/path/core-utils/.bitx'']"
  by (simp add: collectRooDir_def coreUtilsEnv_def coreUtilsFiles_def posixEnv_sel foundFile_def
        rooMatch_def isSeparator_def isLineTerminator_def posixJoin_def posixNormalize_def
        setAdd_def)

lemma coreUtils_sort:
  "sort [''/project/path/core/.bitx'', ''/project/path/core-utils/.bitx'']
   = [''/project/path/core-utils/.bitx'', ''/project/path/core/.bitx'']"
  by code_simp

lemma coreUtils_discover:
  "discoverSubfolderRooDirectories coreUtilsEnv ''/project/path''
   = [''/project/path/core-utils/.bitx'', ''/project/path/core/.bitx'']"
proof -
  have "executeRipgrep coreUtilsEnv (ripgrepArgs ''/project/path'') ''/project/path''
          = Inr coreUtilsFiles"
    by (simp add: coreUtilsEnv_def posixEnv_sel)
  then show ?thesis
    by (simp only: discoverSubfolderRooDirectories_def sum.case coreUtils_fold coreUtils_sort)
qed

lemma coreUtils_parents:
  "posixDirname ''/project/path/core-utils/.bitx'' = ''/project/path/core-utils''"
  "posixDirname ''/project/path/core/.bitx'' = ''/project/path/core''"
  by (simp_all add: posixDirname_def)

lemma coreUtils_order:
  "''/project/path/core'' < ''/project/path/core-utils''" "''core'' < ''core-utils''"
  by code_simp+

text \<open>
  C7, as the claim states it, fails: the parent directories do not come out in
  alphabetical order of the subfolders. With configuration directories in the subfolders
  \<^verbatim>\<open>core\<close> and \<^verbatim>\<open>core-utils\<close>, the parent of \<^verbatim>\<open>core-utils\<close> is returned
  before the parent of \<^verbatim>\<open>core\<close>, because the discovery sorts the paths of the
  configuration directories, where the hyphen comes before the slash.
\<close>

theorem getAgentsDirectoriesForCwd_parent_order_counterexample:
  "getAgentsDirectoriesForCwd coreUtilsEnv ''/project/path''
     = [''/project/path'', ''/project/path/core-utils'', ''/project/path/core'']
   \<and> ''/project/path/core'' < ''/project/path/core-utils''
   \<and> ''core'' < ''core-utils''
   \<and> \<not> sorted (tl (getAgentsDirectoriesForCwd coreUtilsEnv ''/project/path''))"
proof -
  have d: "dirname coreUtilsEnv = posixDirname"
    by (simp add: coreUtilsEnv_def posixEnv_sel)
  have a: "getAgentsDirectoriesForCwd coreUtilsEnv ''/project/path''
     = [''/project/path'', ''/project/path/core-utils'', ''/project/path/core'']"
    by (simp add: getAgentsDirectoriesForCwd_def coreUtils_discover d coreUtils_parents)
  have "\<not> ''/project/path/core-utils'' \<le> ''/project/path/core''"
    using coreUtils_order(1) by simp
  with a coreUtils_order show ?thesis by simp
qed

text \<open>
  C7 (amended): for every workspace root, \<^verbatim>\<open>getAgentsDirectoriesForCwd\<close> has the root
  as its first element, also when nothing is discovered, and its other elements are the
  parent directories of the discovered configuration directories, one for each, in the
  order of discovery, which is the strictly ascending order of the paths of the
  configuration directories and not always the alphabetical order of the subfolders.
\<close>

theorem getAgentsDirectoriesForCwd_layout:
  "getAgentsDirectoriesForCwd env cwd
     = cwd # map (dirname env) (discoverSubfolderRooDirectories env cwd)
   \<and> hd (getAgentsDirectoriesForCwd env cwd) = cwd
   \<and> tl (getAgentsDirectoriesForCwd env cwd)
       = map (dirname env) (discoverSubfolderRooDirectories env cwd)
   \<and> sorted_wrt (<) (discoverSubfolderRooDirectories env cwd)"
  by (simp add: getAgentsDirectoriesForCwd_def fold_push discover_strictly_ascending)

theorem getAgentsDirectoriesForCwd_layout_witness:
  "getAgentsDirectoriesForCwd monorepoEnv ''/project/path''
     = [''/project/path'', ''/project/path/apple'', ''/project/path/packages/core'',
        ''/project/path/zebra'']
   \<and> getAgentsDirectoriesForCwd brokenSearchEnv ''/project/path'' = [''/project/path'']"
proof -
  have d: "dirname monorepoEnv = posixDirname"
    by (simp add: monorepoEnv_def posixEnv_sel)
  show ?thesis
    using getAgentsDirectoriesForCwd_layout [of monorepoEnv "''/project/path''"]
          getAgentsDirectoriesForCwd_layout [of brokenSearchEnv "''/project/path''"]
    by (simp add: monorepo_discover brokenSearch_discover d posixDirname_examples)
qed

section \<open>Write protection\<close>

lemma splitOn_not_Nil: "splitOn d s \<noteq> []"
  by (induction s) (auto split: list.splits)

lemma splitOn_append_separator:
  "splitOn d (a @ d # b) = splitOn d a @ splitOn d b"
proof (induction a)
  case Nil
  show ?case by simp
next
  case (Cons c a)
  obtain s ss where s: "splitOn d a = s # ss"
    using splitOn_not_Nil [of d a] by (cases "splitOn d a") auto
  with Cons show ?case by simp
qed

lemma splitOn_no_separator: "d \<notin> set s \<Longrightarrow> splitOn d s = [s]"
  by (induction s) auto

lemma toPosix_append: "toPosix (a @ b) = toPosix a @ toPosix b"
  by (simp add: toPosix_def)

lemma toPosix_Cons:
  "toPosix (c # s) = (if c = CHR 0x5C then CHR ''/'' else c) # toPosix s"
  by (simp add: toPosix_def)

lemma toPosix_no_backslash: "CHR 0x5C \<notin> set s \<Longrightarrow> toPosix s = s"
  by (induction s) (auto simp: toPosix_def)

lemma toRelative_relative: "\<not> isAbsolute (toPosix p) \<Longrightarrow> toRelative cwd p = toPosix p"
  by (simp add: toRelative_def Let_def)

lemma toRelative_under_root:
  "toRelative w (w @ CHR ''/'' # p) =
     (if isAbsolute (toPosix w @ CHR ''/'' # toPosix p) then toPosix p
      else toPosix w @ CHR ''/'' # toPosix p)"
  by (simp add: toRelative_def Let_def toPosix_append toPosix_Cons)

lemma isAbsolute_append: "isAbsolute a \<Longrightarrow> isAbsolute (a @ b)"
  by (cases a) (simp_all add: isAbsolute_def)

lemma matchesAnywhere_append:
  "matchesAnywhere ps ys \<Longrightarrow> matchesAnywhere ps (xs @ ys)"
  by (induction xs) simp_all

lemma protected_patterns_unanchored:
  "pat \<in> set PROTECTED_PATTERNS \<Longrightarrow>
   patternMatches pat segs = matchesAnywhere (compilePattern pat) segs"
  by (auto simp: PROTECTED_PATTERNS_def patternMatches_def)

lemma isWriteProtected_anywhere:
  "isWriteProtected cwd filePath =
     list_ex (\<lambda>pat. matchesAnywhere (compilePattern pat)
                      (splitOn CHR ''/'' (toRelative cwd filePath))) PROTECTED_PATTERNS"
  by (auto simp: isWriteProtected_def list_ex_iff protected_patterns_unanchored)

lemma isWriteProtected_rooignore:
  "isWriteProtected ''/test/workspace'' ''.rooignore''"
  by (simp add: isWriteProtected_def toRelative_def toPosix_def isAbsolute_def
        PROTECTED_PATTERNS_def patternMatches_def compilePattern_def compileSegment_def)

text \<open>
  C5: for every workspace root \<open>w\<close> and every relative path \<open>p\<close> that matches a
  protection pattern at any depth, the classifier gives the same answer for the
  absolute path \<open>w\<close>, separator, \<open>p\<close> as for \<open>p\<close>; and under an absolute root that
  path is rewritten, after the conversion of its separators, to the root-relative \<open>p\<close>
  before it is matched.
\<close>

theorem isWriteProtected_absolute_under_root:
  assumes "\<not> isAbsolute (toPosix p)"
      and "list_ex (\<lambda>pat. matchesAnywhere (compilePattern pat)
                            (splitOn CHR ''/'' (toPosix p))) PROTECTED_PATTERNS"
  shows "isWriteProtected w (w @ ''/'' @ p) = isWriteProtected w p
       \<and> (isAbsolute (toPosix w) \<longrightarrow> toRelative w (w @ ''/'' @ p) = toPosix p)"
proof -
  have rel: "toRelative w p = toPosix p"
    using assms(1) by (rule toRelative_relative)
  have here: "isWriteProtected w p"
    using assms(2) by (simp add: isWriteProtected_anywhere rel)
  have rewritten: "toRelative w (w @ ''/'' @ p) = toPosix p" if "isAbsolute (toPosix w)"
    using that by (simp add: toRelative_under_root isAbsolute_append)
  have "isWriteProtected w (w @ ''/'' @ p) = isWriteProtected w p"
  proof (cases "isAbsolute (toPosix w @ CHR ''/'' # toPosix p)")
    case True
    then have "toRelative w (w @ ''/'' @ p) = toRelative w p"
      by (simp add: toRelative_under_root rel)
    then show ?thesis by (simp add: isWriteProtected_def)
  next
    case False
    then have "splitOn CHR ''/'' (toRelative w (w @ ''/'' @ p))
                 = splitOn CHR ''/'' (toPosix w) @ splitOn CHR ''/'' (toPosix p)"
      by (simp add: toRelative_under_root splitOn_append_separator)
    then have "isWriteProtected w (w @ ''/'' @ p)"
      using assms(2)
      by (auto simp: isWriteProtected_anywhere list_ex_iff intro: matchesAnywhere_append)
    with here show ?thesis by simp
  qed
  with rewritten show ?thesis by simp
qed

theorem isWriteProtected_absolute_under_root_witness:
  "isWriteProtected ''/test/workspace'' ''/test/workspace/.rooignore''
   \<and> isWriteProtected ''/test/workspace'' ''.rooignore''
   \<and> toRelative ''/test/workspace'' ''/test/workspace/.rooignore'' = ''.rooignore''"
proof -
  have a: "isAbsolute (toPosix ''/test/workspace'')"
    by (simp add: isAbsolute_def toPosix_def)
  have t: "toPosix ''.rooignore'' = ''.rooignore''"
    by (simp add: toPosix_def)
  have r: "\<not> isAbsolute (toPosix ''.rooignore'')"
    by (simp add: isAbsolute_def toPosix_def)
  have m: "list_ex (\<lambda>pat. matchesAnywhere (compilePattern pat)
                            (splitOn CHR ''/'' (toPosix ''.rooignore''))) PROTECTED_PATTERNS"
    by (simp add: toPosix_def PROTECTED_PATTERNS_def compilePattern_def compileSegment_def)
  have "isWriteProtected ''/test/workspace'' (''/test/workspace'' @ ''/'' @ ''.rooignore'')
          = isWriteProtected ''/test/workspace'' ''.rooignore''
        \<and> (isAbsolute (toPosix ''/test/workspace'') \<longrightarrow>
             toRelative ''/test/workspace'' (''/test/workspace'' @ ''/'' @ ''.rooignore'')
               = toPosix ''.rooignore'')"
    using r m by (rule isWriteProtected_absolute_under_root)
  with a t isWriteProtected_rooignore show ?thesis by simp
qed

lemma annotatePathsWithProtection_map:
  "annotatePathsWithProtection cwd paths
     = map (\<lambda>filePath. \<lparr> rpath = filePath, isProtected = isWriteProtected cwd filePath \<rparr>) paths"
  by (induction paths) simp_all

text \<open>
  C8: for every list of paths, \<^verbatim>\<open>annotatePathsWithProtection\<close> returns a sequence of
  the same length and in the same order, whose element at each index holds the original
  path string of that index and its classification.
\<close>

theorem annotatePathsWithProtection_pointwise:
  "length (annotatePathsWithProtection cwd paths) = length paths
   \<and> map rpath (annotatePathsWithProtection cwd paths) = paths
   \<and> (\<forall>i < length paths.
         annotatePathsWithProtection cwd paths ! i
           = \<lparr> rpath = paths ! i, isProtected = isWriteProtected cwd (paths ! i) \<rparr>)"
  by (simp add: annotatePathsWithProtection_map comp_def map_idI)

lemma protection_examples:
  "\<not> isWriteProtected ''/test/workspace'' ''src/index.ts''"
  "isWriteProtected ''/test/workspace'' ''.bitx/config.json''"
  "\<not> isWriteProtected ''/test/workspace'' ''package.json''"
  by (simp_all add: isWriteProtected_def toRelative_def toPosix_def isAbsolute_def
        PROTECTED_PATTERNS_def patternMatches_def compilePattern_def compileSegment_def)

theorem annotatePathsWithProtection_pointwise_witness:
  "annotatePathsWithProtection ''/test/workspace''
     [''src/index.ts'', ''.rooignore'', ''.bitx/config.json'', ''package.json'']
   = [\<lparr> rpath = ''src/index.ts'', isProtected = False \<rparr>,
      \<lparr> rpath = ''.rooignore'', isProtected = True \<rparr>,
      \<lparr> rpath = ''.bitx/config.json'', isProtected = True \<rparr>,
      \<lparr> rpath = ''package.json'', isProtected = False \<rparr>]"
proof -
  let ?paths = "[''src/index.ts'', ''.rooignore'', ''.bitx/config.json'', ''package.json'']"
  let ?out = "annotatePathsWithProtection ''/test/workspace'' ?paths"
  have len: "length ?out = 4"
    using annotatePathsWithProtection_pointwise [of "''/test/workspace''" ?paths] by simp
  have nth: "\<forall>i < 4. ?out ! i
               = \<lparr> rpath = ?paths ! i,
                   isProtected = isWriteProtected ''/test/workspace'' (?paths ! i) \<rparr>"
    using annotatePathsWithProtection_pointwise [of "''/test/workspace''" ?paths] by simp
  have "?out = [?out ! 0, ?out ! 1, ?out ! 2, ?out ! 3]"
    using len by (auto simp: list_eq_iff_nth_eq less_Suc_eq numeral_eq_Suc)
  also have "\<dots> = [\<lparr> rpath = ''src/index.ts'', isProtected = False \<rparr>,
      \<lparr> rpath = ''.rooignore'', isProtected = True \<rparr>,
      \<lparr> rpath = ''.bitx/config.json'', isProtected = True \<rparr>,
      \<lparr> rpath = ''package.json'', isProtected = False \<rparr>]"
    using nth isWriteProtected_rooignore protection_examples by simp
  finally show ?thesis .
qed

lemma relative_plain_path:
  "CHR 0x5C \<notin> set s \<Longrightarrow> \<not> isAbsolute s \<Longrightarrow> toRelative cwd s = s"
  by (simp add: toRelative_relative toPosix_no_backslash)

lemma globMatch_literal:
  "CHR ''*'' \<notin> set lit \<Longrightarrow> globMatch lit s = (s = lit)"
proof (induction lit arbitrary: s)
  case Nil
  show ?case by (cases s) simp_all
next
  case (Cons c lit)
  then show ?case by (cases s) auto
qed

lemma globMatch_star_suffix:
  "CHR ''*'' \<notin> set lit \<Longrightarrow> globMatch (CHR ''*'' # lit) s = suffix lit s"
proof (induction s)
  case Nil
  then show ?case by (simp add: globMatch_literal) auto
next
  case (Cons x xs)
  then show ?case by (auto simp: globMatch_literal suffix_Cons)
qed

lemma extended_exact_name:
  assumes n: "name \<in> set [''.rooignore'', ''.roomodes'', ''.rooprotected'', ''AGENTS.md'', ''AGENT.md'']"
      and e: "extra \<noteq> []" "CHR ''/'' \<notin> set extra" "CHR 0x5C \<notin> set extra"
  shows "isWriteProtected cwd (name @ extra) = suffix ''.code-workspace'' (name @ extra)"
proof -
  have plain: "CHR 0x5C \<notin> set (name @ extra)" "CHR ''/'' \<notin> set (name @ extra)"
      "\<not> isAbsolute (name @ extra)"
    using n e by (auto simp: isAbsolute_def)
  have segs: "splitOn CHR ''/'' (toRelative cwd (name @ extra)) = [name @ extra]"
    using plain by (simp add: relative_plain_path splitOn_no_separator)
  have star: "globMatch ''*.code-workspace'' (name @ extra) = suffix ''.code-workspace'' (name @ extra)"
    using globMatch_star_suffix [of "''.code-workspace''" "name @ extra"] by simp
  show ?thesis
    unfolding isWriteProtected_def segs
    using n e(1) star
    by (auto simp: PROTECTED_PATTERNS_def patternMatches_def compilePattern_def compileSegment_def)
qed

lemma toRelative_cases:
  "toRelative cwd x = toPosix x
   \<or> (\<exists>root. root \<noteq> [] \<and> last root = CHR ''/'' \<and> toPosix x = root @ toRelative cwd x)"
proof (cases "isAbsolute (toPosix x) \<and> prefix (toPosix cwd @ ''/'') (toPosix x)")
  case False
  then show ?thesis by (auto simp: toRelative_def Let_def)
next
  case True
  then obtain r where r: "toPosix x = (toPosix cwd @ ''/'') @ r"
    by (auto simp: prefix_def)
  with True have "toRelative cwd x = r"
    by (simp add: toRelative_def Let_def)
  with r have "toPosix x = (toPosix cwd @ ''/'') @ toRelative cwd x" by simp
  moreover have "toPosix cwd @ ''/'' \<noteq> []" "last (toPosix cwd @ ''/'') = CHR ''/''" by simp_all
  ultimately show ?thesis by blast
qed

lemma rooignore_tail:
  assumes "us @ r = ''.rooignore''" "us \<noteq> []"
  shows "last us \<noteq> CHR ''/''"
proof -
  have "set us \<subseteq> set ''.rooignore''"
    using assms(1) by (metis set_append Un_upper1)
  moreover have "last us \<in> set us" using assms(2) by simp
  ultimately have "last us \<in> set ''.rooignore''" by blast
  then show ?thesis by auto
qed

lemma rooignore_after_root:
  assumes eq: "D @ (CHR ''/'' # ''.rooignore'') = root @ r"
      and root: "root \<noteq> []" "last root = CHR ''/''"
  shows "\<exists>pre. splitOn CHR ''/'' r = pre @ [''.rooignore'']"
proof -
  have leaf: "splitOn CHR ''/'' ''.rooignore'' = [''.rooignore'']"
    by simp
  from eq consider (inD) us where "D = root @ us" "us @ (CHR ''/'' # ''.rooignore'') = r"
    | (inA) us where "D @ us = root" "CHR ''/'' # ''.rooignore'' = us @ r"
    by (auto simp: append_eq_append_conv2)
  then show ?thesis
  proof cases
    case (inD us)
    then have "splitOn CHR ''/'' r = splitOn CHR ''/'' us @ [''.rooignore'']"
      by (metis splitOn_append_separator leaf)
    then show ?thesis by blast
  next
    case (inA us)
    show ?thesis
    proof (cases us)
      case Nil
      with inA(2) have "r = CHR ''/'' # ''.rooignore''" by simp
      then have "splitOn CHR ''/'' r = [[]] @ [''.rooignore'']" by simp
      then show ?thesis by blast
    next
      case (Cons u us')
      with inA(2) have rest: "us' @ r = ''.rooignore''" by simp
      have "us' = []"
      proof (rule ccontr)
        assume ne: "us' \<noteq> []"
        then have "last root = last us'"
          using inA(1) Cons by (metis last_appendR last_ConsR list.distinct(1))
        with root(2) rooignore_tail [OF rest ne] show False by simp
      qed
      with rest have "r = ''.rooignore''" by simp
      then have "splitOn CHR ''/'' r = [] @ [''.rooignore'']" by simp
      then show ?thesis by blast
    qed
  qed
qed

lemma rooignore_last_segment:
  "\<exists>pre. splitOn CHR ''/'' (toRelative cwd (d @ ''/.rooignore'')) = pre @ [''.rooignore'']"
proof -
  define r where "r = toRelative cwd (d @ ''/.rooignore'')"
  have tp: "toPosix (d @ ''/.rooignore'') = toPosix d @ (CHR ''/'' # ''.rooignore'')"
    by (simp add: toPosix_append toPosix_Cons) (simp add: toPosix_def)
  have leaf: "splitOn CHR ''/'' ''.rooignore'' = [''.rooignore'']"
    by simp
  from toRelative_cases [of cwd "d @ ''/.rooignore''"]
  consider (same) "r = toPosix d @ (CHR ''/'' # ''.rooignore'')"
    | (cut) root where "root \<noteq> []" "last root = CHR ''/''"
        "toPosix d @ (CHR ''/'' # ''.rooignore'') = root @ r"
    unfolding tp r_def by blast
  then have "\<exists>pre. splitOn CHR ''/'' r = pre @ [''.rooignore'']"
  proof cases
    case same
    then have "splitOn CHR ''/'' r = splitOn CHR ''/'' (toPosix d) @ [''.rooignore'']"
      by (simp only: splitOn_append_separator leaf)
    then show ?thesis by blast
  next
    case (cut root)
    from cut(3) cut(1) cut(2) show ?thesis by (rule rooignore_after_root)
  qed
  then show ?thesis unfolding r_def .
qed

lemma nested_rooignore:
  "isWriteProtected cwd (d @ ''/.rooignore'')"
proof -
  obtain pre where pre: "splitOn CHR ''/'' (toRelative cwd (d @ ''/.rooignore'')) = pre @ [''.rooignore'']"
    using rooignore_last_segment by blast
  have c: "compilePattern ''.rooignore'' = [Literal ''.rooignore'']"
    by (simp add: compilePattern_def compileSegment_def)
  have "matchesAnywhere [Literal ''.rooignore''] [''.rooignore'']" by simp
  then have "matchesAnywhere (compilePattern ''.rooignore'') (pre @ [''.rooignore''])"
    unfolding c by (rule matchesAnywhere_append)
  moreover have "''.rooignore'' \<in> set PROTECTED_PATTERNS"
    by (simp add: PROTECTED_PATTERNS_def)
  ultimately show ?thesis
    unfolding isWriteProtected_anywhere pre list_ex_iff by blast
qed

lemma segmentsMatch_first:
  "segmentsMatch (p # ps) segs \<Longrightarrow> \<exists>s \<in> set segs. segmentMatch p s"
  by (cases p; cases segs) auto

lemma matchesAnywhere_first:
  "matchesAnywhere (p # ps) segs \<Longrightarrow> \<exists>s \<in> set segs. segmentMatch p s"
proof (induction segs)
  case Nil
  then show ?case by simp
next
  case (Cons s ss)
  then show ?case using segmentsMatch_first [of p ps "s # ss"] by auto
qed

lemma globMatch_first_char:
  "c \<noteq> CHR ''*'' \<Longrightarrow> globMatch (c # cs) s \<Longrightarrow> prefix [c] s"
  by (cases s) auto

lemma ordinary_segments_unprotected:
  assumes "list_all (\<lambda>s. \<not> prefix ''.'' s \<and> s \<noteq> ''AGENTS.md'' \<and> s \<noteq> ''AGENT.md''
                        \<and> \<not> suffix ''.code-workspace'' s)
             (splitOn CHR ''/'' (toRelative cwd p))"
  shows "\<not> isWriteProtected cwd p"
proof
  let ?segs = "splitOn CHR ''/'' (toRelative cwd p)"
  assume "isWriteProtected cwd p"
  then obtain pat where pat: "pat \<in> set PROTECTED_PATTERNS"
      and m: "matchesAnywhere (compilePattern pat) ?segs"
    by (auto simp: isWriteProtected_anywhere list_ex_iff)
  have star: "globMatch ''*.code-workspace'' s = suffix ''.code-workspace'' s" for s
    using globMatch_star_suffix [of "''.code-workspace''" s] by simp
  have dot: "prefix ''.'' s" if "globMatch (CHR ''.'' # cs) s" for cs s
    using globMatch_first_char [of "CHR ''.''" cs s] that by simp
  from pat have "\<exists>q qs. compilePattern pat = q # qs
      \<and> (\<forall>s. segmentMatch q s \<longrightarrow>
            prefix ''.'' s \<or> s = ''AGENTS.md'' \<or> s = ''AGENT.md''
            \<or> suffix ''.code-workspace'' s)"
    by (auto simp: PROTECTED_PATTERNS_def compilePattern_def compileSegment_def star
             dest: dot)
  then obtain q qs where q: "compilePattern pat = q # qs"
      and qm: "\<And>s. segmentMatch q s \<Longrightarrow>
            prefix ''.'' s \<or> s = ''AGENTS.md'' \<or> s = ''AGENT.md''
            \<or> suffix ''.code-workspace'' s"
    by blast
  from m q obtain s where "s \<in> set ?segs" "segmentMatch q s"
    using matchesAnywhere_first [of q qs ?segs] by auto
  with qm assms show False
    by (auto simp: list_all_iff)
qed

text \<open>
  C9, as the claim states it, fails: a distinct name that puts more characters after an
  exact-name pattern can be protected. The name below extends the exact ignore-file name
  and is protected, because it matches the pattern of the workspace files.
\<close>

theorem isWriteProtected_extended_name_counterexample:
  "''.rooignore'' \<in> set PROTECTED_PATTERNS
   \<and> strict_prefix ''.rooignore'' ''.rooignore.code-workspace''
   \<and> isWriteProtected ''/test/workspace'' ''.rooignore.code-workspace''"
  by code_simp

text \<open>
  C9 (amended): the classifier protects the exact ignore-file name, bare and as the last
  segment of any path; a name that puts more characters of the same segment after an
  exact-name pattern is protected exactly when it ends in the suffix of the workspace
  files, so the exact-name pattern never protects it by prefix; the names
  \<^verbatim>\<open>.roosettings\<close> and \<^verbatim>\<open>.rooconfig\<close> are not protected; and an ordinary source
  path such as \<^verbatim>\<open>src/index.ts\<close> is not protected, as is every path none of whose
  segments starts with a dot, is one of the two agents file names or ends in the suffix
  of the workspace files.
\<close>

theorem isWriteProtected_exact_names:
  "isWriteProtected cwd ''.rooignore''
   \<and> isWriteProtected cwd (d @ ''/.rooignore'')
   \<and> (name \<in> set [''.rooignore'', ''.roomodes'', ''.rooprotected'', ''AGENTS.md'', ''AGENT.md'']
        \<and> extra \<noteq> [] \<and> CHR ''/'' \<notin> set extra \<and> CHR 0x5C \<notin> set extra \<longrightarrow>
        isWriteProtected cwd (name @ extra) = suffix ''.code-workspace'' (name @ extra))
   \<and> \<not> isWriteProtected cwd ''.roosettings''
   \<and> \<not> isWriteProtected cwd ''.rooconfig''
   \<and> \<not> isWriteProtected cwd ''src/index.ts''
   \<and> (list_all (\<lambda>s. \<not> prefix ''.'' s \<and> s \<noteq> ''AGENTS.md'' \<and> s \<noteq> ''AGENT.md''
                      \<and> \<not> suffix ''.code-workspace'' s)
          (splitOn CHR ''/'' (toRelative cwd p)) \<longrightarrow>
        \<not> isWriteProtected cwd p)"
proof -
  have ex: "isWriteProtected cwd ''.rooignore''"
      "\<not> isWriteProtected cwd ''.roosettings''"
      "\<not> isWriteProtected cwd ''.rooconfig''"
      "\<not> isWriteProtected cwd ''src/index.ts''"
    by (simp_all add: isWriteProtected_def toRelative_def toPosix_def isAbsolute_def
          PROTECTED_PATTERNS_def patternMatches_def compilePattern_def compileSegment_def)
  from ex nested_rooignore [of cwd d] extended_exact_name [of name extra cwd]
       ordinary_segments_unprotected [of cwd p]
  show ?thesis by blast
qed

theorem isWriteProtected_exact_names_witness:
  "isWriteProtected ''/test/workspace'' ''.rooignore''
   \<and> isWriteProtected ''/test/workspace'' ''nested/.rooignore''
   \<and> \<not> isWriteProtected ''/test/workspace'' ''.rooignore.bak''
   \<and> \<not> isWriteProtected ''/test/workspace'' ''.roosettings''
   \<and> \<not> isWriteProtected ''/test/workspace'' ''src/index.ts''"
proof -
  have segs: "list_all (\<lambda>s. \<not> prefix ''.'' s \<and> s \<noteq> ''AGENTS.md'' \<and> s \<noteq> ''AGENT.md''
                      \<and> \<not> suffix ''.code-workspace'' s)
          (splitOn CHR ''/'' (toRelative ''/test/workspace'' ''src/index.ts''))"
    by code_simp
  have bak: "\<not> suffix ''.code-workspace'' (''.rooignore'' @ ''.bak'')"
    by code_simp
  show ?thesis
    using isWriteProtected_exact_names
            [of "''/test/workspace''" "''nested''" "''.rooignore''" "''.bak''" "''src/index.ts''"]
          segs bak
    by simp
qed

text \<open>
  The model of the classifier gives what the test suite of
  \<^verbatim>\<open>RooProtectedController\<close> expects, on every path that the suite tries.
\<close>

lemma isWriteProtected_suite_protected:
  "list_all (isWriteProtected ''/test/workspace'')
     [''.rooignore'', ''.bitx/config.json'', ''.bitx/settings/user.json'',
      ''.bitx/modes/custom.json'', ''.rooprotected'', ''.roomodes'', ''.roorules'',
      ''.roorules.md'', ''.clinerules'', ''.clinerules.md'', ''.vscode/settings.json'',
      ''.vscode/launch.json'', ''.vscode/tasks.json'', ''myproject.code-workspace'',
      ''pentest.code-workspace'', ''.code-workspace'', ''folder/workspace.code-workspace'',
      ''AGENTS.md'', ''AGENT.md'', ''nested/.rooignore'', ''nested/.roomodes'',
      ''nested/.roorules.md'', ''/test/workspace/.rooignore'',
      ''.bitx'' @ [CHR 0x5C] @ ''config.json'']"
  by code_simp

lemma isWriteProtected_suite_unprotected:
  "list_all (\<lambda>p. \<not> isWriteProtected ''/test/workspace'' p)
     [''.roosettings'', ''.rooconfig'', ''src/index.ts'', ''package.json'', ''README.md'',
      ''src/bitx-utils.ts'', ''config/bitx.config.js'']"
  by code_simp

end
